theory Spec2Isabelle
  imports Complex_Main "HOL-Library.Multiset"
begin

section \<open>Geographic points (package types) and the itinerary route optimizer\<close>

subsection \<open>float64 values\<close>

text \<open>
  Go's \<^verbatim>\<open>float64\<close>. \<open>Fin r\<close> is a finite value with the real number it denotes;
  the two infinities and NaN are kept apart because the code's comparisons, the JSON encoder
  and the text scanner treat them differently. Only comparisons, which IEEE 754 evaluates
  exactly, are applied to coordinates; the two signed zeros are identified (Go's \<^verbatim>\<open>==\<close>
  does the same).
\<close>

datatype float64 = NaN | NegInf | Fin real | PosInf

text \<open>\<^verbatim>\<open>x < y\<close> on float64: false as soon as one side is NaN.\<close>

fun flt :: "float64 \<Rightarrow> float64 \<Rightarrow> bool" where
  "flt NaN y = False"
| "flt x NaN = False"
| "flt NegInf NegInf = False"
| "flt NegInf y = True"
| "flt (Fin a) NegInf = False"
| "flt (Fin a) (Fin b) = (a < b)"
| "flt (Fin a) PosInf = True"
| "flt PosInf y = False"

text \<open>\<^verbatim>\<open>x > y\<close> on float64.\<close>

definition fgt :: "float64 \<Rightarrow> float64 \<Rightarrow> bool" where
  "fgt x y = flt y x"

text \<open>\<^verbatim>\<open>math.IsNaN(x) || math.IsInf(x, 0)\<close>, the values JSON has no number for.\<close>

fun nonfinite :: "float64 \<Rightarrow> bool" where
  "nonfinite (Fin r) = False"
| "nonfinite x = True"

text \<open>\<^verbatim>\<open>math.MaxFloat64\<close>, the largest finite float64.\<close>

definition MaxFloat64 :: real where
  "MaxFloat64 = 2 ^ 1024 - 2 ^ 971"

subsection \<open>Point and its validation\<close>

record Point =
  Longitude :: float64
  Latitude :: float64

text \<open>\<^verbatim>\<open>Point.IsValid\<close>: two range checks, latitude first.\<close>

definition IsValid :: "Point \<Rightarrow> bool" where
  "IsValid p =
     (if flt (Latitude p) (Fin (- 90)) \<or> fgt (Latitude p) (Fin 90) then False
      else if flt (Longitude p) (Fin (- 180)) \<or> fgt (Longitude p) (Fin 180) then False
      else True)"

text \<open>
  Errors of the package. Each constructor is one place where the source builds an error;
  its arguments are the values the message or hint is formatted from.
\<close>

datatype error =
    InvalidGeoJSONType string            \<comment> \<open>"invalid GeoJSON type", hint names the type found\<close>
  | InvalidCoordinatesLen nat            \<comment> \<open>"invalid coordinates", hint "expected 2 values, got n"\<close>
  | CoordinatesOutOfRange                \<comment> \<open>"invalid coordinates", hint "latitude or longitude out of range"\<close>
  | InvalidWKTFormat string              \<comment> \<open>"invalid WKT format", hint quotes the input\<close>
  | WKTCoordinatesOutOfRange             \<comment> \<open>"invalid coordinates in WKT"\<close>
  | InvalidLatitude                      \<comment> \<open>Location.Validate: "invalid latitude"\<close>
  | InvalidLongitude                     \<comment> \<open>Location.Validate: "invalid longitude"\<close>
  | JSONSyntaxError                      \<comment> \<open>encoding/json: *SyntaxError\<close>
  | JSONUnmarshalTypeError               \<comment> \<open>encoding/json: *UnmarshalTypeError\<close>
  | JSONUnsupportedValue float64         \<comment> \<open>encoding/json: *UnsupportedValueError\<close>
  | ProviderError string                 \<comment> \<open>an error of the routing client\<close>
  | DistanceMatrixFailed error           \<comment> \<open>"failed to get distance matrix: %w"\<close>
  | TimeWindowExceeded                   \<comment> \<open>"cannot fit all places: time window exceeded"\<close>
  | NilPointerPanic                      \<comment> \<open>run-time panic: nil pointer dereference\<close>

subsection \<open>Location of a place (package place)\<close>

text \<open>
  \<^verbatim>\<open>decimal.Decimal\<close> is an exact decimal number; it is represented by the rational it
  denotes. \<^verbatim>\<open>LessThan\<close> and \<^verbatim>\<open>GreaterThan\<close> compare the numbers,
  \<^verbatim>\<open>decimal.NewFromInt\<close> embeds an integer.
\<close>

type_synonym decimal = rat




record Location =
  loc_Latitude :: decimal
  loc_Longitude :: decimal


subsection \<open>JSON documents and encoding/json\<close>

text \<open>
  The byte input of a decoder is represented by what \<^verbatim>\<open>encoding/json\<close> sees in it:
  \<open>None\<close> when the bytes are not a JSON text (\<^verbatim>\<open>json.Unmarshal\<close> then returns a
  \<^verbatim>\<open>*SyntaxError\<close> and leaves its target alone), \<open>Some j\<close> with the parsed value
  otherwise. An object keeps its members in document order, repeated keys included; keys
  and strings are the unquoted bytes; a number carries the value of its literal.
\<close>

datatype json =
    JNull
  | JBool bool
  | JNumber real
  | JString string
  | JArray "json list"
  | JObject "(string \<times> json) list"

text \<open>
  Converting a number literal to float64 (\<^verbatim>\<open>strconv.ParseFloat\<close>): a literal that rounds
  beyond the largest finite value is a range error.
\<close>

definition float64_of_literal :: "real \<Rightarrow> float64 option" where
  "float64_of_literal r = (if \<bar>r\<bar> < 2 ^ 1024 - 2 ^ 970 then Some (Fin r) else None)"

text \<open>
  Decoding one JSON value into a \<^verbatim>\<open>float64\<close> or \<^verbatim>\<open>string\<close> variable holding \<open>cur\<close>:
  \<^verbatim>\<open>null\<close> leaves the variable as it is, a value of another JSON type is an
  \<^verbatim>\<open>*UnmarshalTypeError\<close>.
\<close>

fun decode_float64 :: "float64 \<Rightarrow> json \<Rightarrow> error + float64" where
  "decode_float64 cur JNull = Inr cur"
| "decode_float64 cur (JNumber r) =
     (case float64_of_literal r of None \<Rightarrow> Inl JSONUnmarshalTypeError | Some x \<Rightarrow> Inr x)"
| "decode_float64 cur j = Inl JSONUnmarshalTypeError"

fun decode_string :: "string \<Rightarrow> json \<Rightarrow> error + string" where
  "decode_string cur JNull = Inr cur"
| "decode_string cur (JString s) = Inr s"
| "decode_string cur j = Inl JSONUnmarshalTypeError"

text \<open>
  Decoding an array into a \<^verbatim>\<open>[]float64\<close> holding \<open>cur\<close>: element \<open>i\<close> is decoded into
  the slot \<open>i\<close> of the slice (a fresh slot holds 0), and the slice ends with the length of
  the array.
\<close>

fun decode_elems :: "float64 list \<Rightarrow> json list \<Rightarrow> error + float64 list" where
  "decode_elems cur [] = Inr []"
| "decode_elems cur (j # js) =
     (case decode_float64 (case cur of [] \<Rightarrow> Fin 0 | c # cs \<Rightarrow> c) j of
        Inl e \<Rightarrow> Inl e
      | Inr x \<Rightarrow> (case decode_elems (tl cur) js of Inl e \<Rightarrow> Inl e | Inr xs \<Rightarrow> Inr (x # xs)))"

fun decode_slice :: "float64 list \<Rightarrow> json \<Rightarrow> error + float64 list" where
  "decode_slice cur JNull = Inr []"
| "decode_slice cur (JArray js) = decode_elems cur js"
| "decode_slice cur j = Inl JSONUnmarshalTypeError"

text \<open>
  A member of an object goes to the struct field whose JSON name equals its key up to case
  folding. The folding maps ASCII letters to upper case, and the two non-ASCII
  letters that fold to ASCII ones, U+017F (bytes C5 BF) to S and U+212A (bytes E2 84 AA) to K;
  a member that matches no field is skipped.
\<close>

definition upper :: "char \<Rightarrow> char" where
  "upper c = (if (97::nat) \<le> of_char c \<and> of_char c \<le> (122::nat)
              then char_of (of_char c - (32::nat)) else c)"

fun foldName :: "string \<Rightarrow> string" where
  "foldName [] = []"
| "foldName (c # cs) =
     (if c = CHR 0xC5 then
        (case cs of
           c2 # r2 \<Rightarrow> if c2 = CHR 0xBF then CHR ''S'' # foldName r2 else c # foldName cs
         | [] \<Rightarrow> [c])
      else if c = CHR 0xE2 then
        (case cs of
           c2 # c3 # r3 \<Rightarrow>
             if c2 = CHR 0x84 \<and> c3 = CHR 0xAA then CHR ''K'' # foldName r3 else c # foldName cs
         | _ \<Rightarrow> c # foldName cs)
      else upper c # foldName cs)"

definition key_is :: "string \<Rightarrow> string \<Rightarrow> bool" where
  "key_is k name = (foldName k = foldName name)"

record GeoJSONPoint =
  Type :: string
  Coordinates :: "float64 list"

text \<open>The flat form, the local type \<^verbatim>\<open>alias\<close> of \<^verbatim>\<open>UnmarshalJSON\<close>.\<close>

record alias_struct =
  alias_Longitude :: float64
  alias_Latitude :: float64

fun members_GeoJSONPoint :: "GeoJSONPoint \<Rightarrow> (string \<times> json) list \<Rightarrow> error + GeoJSONPoint" where
  "members_GeoJSONPoint g [] = Inr g"
| "members_GeoJSONPoint g ((k, j) # ms) =
     (if key_is k ''type'' then
        (case decode_string (Type g) j of
           Inl e \<Rightarrow> Inl e
         | Inr s \<Rightarrow> members_GeoJSONPoint (g\<lparr>Type := s\<rparr>) ms)
      else if key_is k ''coordinates'' then
        (case decode_slice (Coordinates g) j of
           Inl e \<Rightarrow> Inl e
         | Inr xs \<Rightarrow> members_GeoJSONPoint (g\<lparr>Coordinates := xs\<rparr>) ms)
      else members_GeoJSONPoint g ms)"

fun members_alias :: "alias_struct \<Rightarrow> (string \<times> json) list \<Rightarrow> error + alias_struct" where
  "members_alias a [] = Inr a"
| "members_alias a ((k, j) # ms) =
     (if key_is k ''longitude'' then
        (case decode_float64 (alias_Longitude a) j of
           Inl e \<Rightarrow> Inl e
         | Inr x \<Rightarrow> members_alias (a\<lparr>alias_Longitude := x\<rparr>) ms)
      else if key_is k ''latitude'' then
        (case decode_float64 (alias_Latitude a) j of
           Inl e \<Rightarrow> Inl e
         | Inr x \<Rightarrow> members_alias (a\<lparr>alias_Latitude := x\<rparr>) ms)
      else members_alias a ms)"

text \<open>
  \<^verbatim>\<open>json.Unmarshal(data, &v)\<close> for a zero-valued struct \<open>v\<close>: a syntax error for bytes
  that are not JSON, no change for \<^verbatim>\<open>null\<close>, member-wise decoding for an object, and an
  \<^verbatim>\<open>*UnmarshalTypeError\<close> for any other value. The library goes on decoding after a type
  error and returns the first one at the end; both callers drop the struct in that case, so
  the model returns the error alone.
\<close>

fun Unmarshal_GeoJSONPoint :: "json option \<Rightarrow> error + GeoJSONPoint" where
  "Unmarshal_GeoJSONPoint None = Inl JSONSyntaxError"
| "Unmarshal_GeoJSONPoint (Some JNull) = Inr \<lparr>Type = [], Coordinates = []\<rparr>"
| "Unmarshal_GeoJSONPoint (Some (JObject ms)) =
     members_GeoJSONPoint \<lparr>Type = [], Coordinates = []\<rparr> ms"
| "Unmarshal_GeoJSONPoint (Some j) = Inl JSONUnmarshalTypeError"

fun Unmarshal_alias :: "json option \<Rightarrow> error + alias_struct" where
  "Unmarshal_alias None = Inl JSONSyntaxError"
| "Unmarshal_alias (Some JNull) = Inr \<lparr>alias_Longitude = Fin 0, alias_Latitude = Fin 0\<rparr>"
| "Unmarshal_alias (Some (JObject ms)) =
     members_alias \<lparr>alias_Longitude = Fin 0, alias_Latitude = Fin 0\<rparr> ms"
| "Unmarshal_alias (Some j) = Inl JSONUnmarshalTypeError"

text \<open>
  \<^verbatim>\<open>json.Marshal\<close> of a \<^verbatim>\<open>GeoJSONPoint\<close>: the fields in declaration order under their
  JSON names. A float64 is written as the shortest literal that reads back as the same
  float64; NaN and the infinities have no literal and make the call fail with an
  \<^verbatim>\<open>*UnsupportedValueError\<close>.
\<close>

fun encode_floats :: "float64 list \<Rightarrow> error + json list" where
  "encode_floats [] = Inr []"
| "encode_floats (Fin r # xs) =
     (case encode_floats xs of Inl e \<Rightarrow> Inl e | Inr js \<Rightarrow> Inr (JNumber r # js))"
| "encode_floats (x # xs) = Inl (JSONUnsupportedValue x)"

definition Marshal_GeoJSONPoint :: "GeoJSONPoint \<Rightarrow> error + json" where
  "Marshal_GeoJSONPoint g =
     (case encode_floats (Coordinates g) of
        Inl e \<Rightarrow> Inl e
      | Inr js \<Rightarrow> Inr (JObject [(''type'', JString (Type g)), (''coordinates'', JArray js)]))"

subsection \<open>The JSON forms of a Point\<close>

text \<open>\<^verbatim>\<open>Point.ToGeoJSON\<close>\<close>

definition ToGeoJSON :: "Point \<Rightarrow> GeoJSONPoint" where
  "ToGeoJSON p = \<lparr>Type = ''Point'', Coordinates = [Longitude p, Latitude p]\<rparr>"

text \<open>\<^verbatim>\<open>PointFromGeoJSON\<close>\<close>

definition PointFromGeoJSON :: "GeoJSONPoint \<Rightarrow> error + Point" where
  "PointFromGeoJSON gj =
     (if Type gj \<noteq> ''Point'' then Inl (InvalidGeoJSONType (Type gj))
      else if length (Coordinates gj) \<noteq> 2 then Inl (InvalidCoordinatesLen (length (Coordinates gj)))
      else
        let point = \<lparr>Longitude = Coordinates gj ! 0, Latitude = Coordinates gj ! 1\<rparr>
        in if \<not> IsValid point then Inl CoordinatesOutOfRange else Inr point)"

text \<open>
  \<^verbatim>\<open>(*Point).UnmarshalJSON\<close>. The method writes through its receiver, so the model takes
  the receiver's value before the call and returns its value after the call with the error
  (\<open>None\<close> is nil). The fallback stores both coordinates before it validates them.
\<close>

definition UnmarshalJSON_fallback :: "Point \<Rightarrow> json option \<Rightarrow> Point \<times> error option" where
  "UnmarshalJSON_fallback p data =
     (case Unmarshal_alias data of
        Inl err \<Rightarrow> (p, Some err)
      | Inr a \<Rightarrow>
          let p' = p\<lparr>Longitude := alias_Longitude a, Latitude := alias_Latitude a\<rparr>
          in if \<not> IsValid p' then (p', Some CoordinatesOutOfRange) else (p', None))"

definition UnmarshalJSON :: "Point \<Rightarrow> json option \<Rightarrow> Point \<times> error option" where
  "UnmarshalJSON p data =
     (case Unmarshal_GeoJSONPoint data of
        Inr geoJSON \<Rightarrow>
          if Type geoJSON = ''Point'' then
            (case PointFromGeoJSON geoJSON of
               Inl err \<Rightarrow> (p, Some err)
             | Inr parsed \<Rightarrow> (parsed, None))
          else UnmarshalJSON_fallback p data
      | Inl err \<Rightarrow> UnmarshalJSON_fallback p data)"

text \<open>\<^verbatim>\<open>Point.MarshalJSON\<close>\<close>

definition MarshalJSON :: "Point \<Rightarrow> error + json" where
  "MarshalJSON p = Marshal_GeoJSONPoint (ToGeoJSON p)"

subsection \<open>Well-Known Text\<close>








text \<open>
  What \<^verbatim>\<open>fmt.Sscanf(wkt, "POINT(%f %f)", &lng, &lat)\<close> leaves behind: the number of items
  scanned, whether the error is non-nil, and the two variables (0 where nothing was
  stored). The scanner belongs to the Go library; \<^verbatim>\<open>PointFromWKT\<close> takes it as the
  parameter \<open>Sscanf\<close>.
\<close>

record Sscanf_result =
  scan_count :: nat
  scan_err :: bool
  scan_lng :: float64
  scan_lat :: float64

text \<open>\<^verbatim>\<open>PointFromWKT\<close>\<close>

definition PointFromWKT :: "(string \<Rightarrow> Sscanf_result) \<Rightarrow> string \<Rightarrow> error + Point" where
  "PointFromWKT Sscanf wkt =
     (let r = Sscanf wkt
      in if scan_err r \<or> scan_count r \<noteq> 2 then Inl (InvalidWKTFormat wkt)
         else
           let point = \<lparr>Longitude = scan_lng r, Latitude = scan_lat r\<rparr>
           in if \<not> IsValid point then Inl WKTCoordinatesOutOfRange else Inr point)"

subsection \<open>The route optimizer\<close>

text \<open>
  A \<^verbatim>\<open>time.Time\<close> is the number of nanoseconds from a fixed instant and a
  \<^verbatim>\<open>time.Duration\<close> a number of nanoseconds; both, and Go's \<^verbatim>\<open>int\<close>, are taken as
  unbounded integers (a day's schedule stays far from the 64-bit limits).
\<close>

type_synonym Time = int

definition Minute :: int where
  "Minute = 60 * 10 ^ 9"

text \<open>
  \<^verbatim>\<open>int(d.Minutes())\<close>: the duration in minutes with the fraction dropped, toward zero. The
  library forms the quotient in float64; for the durations of a day's schedule it has the
  integer part of the exact quotient.
\<close>

definition Minutes_int :: "int \<Rightarrow> int" where
  "Minutes_int d = (if 0 \<le> d then d div Minute else - ((- d) div Minute))"

text \<open>
  \<^verbatim>\<open>x + y\<close> on float64, used for the running total of the distance only. The sum of two
  finite values is taken exactly, where Go rounds it to the nearest float64.
\<close>

fun fadd :: "float64 \<Rightarrow> float64 \<Rightarrow> float64" where
  "fadd NaN y = NaN"
| "fadd x NaN = NaN"
| "fadd PosInf NegInf = NaN"
| "fadd NegInf PosInf = NaN"
| "fadd PosInf y = PosInf"
| "fadd x PosInf = PosInf"
| "fadd NegInf y = NegInf"
| "fadd x NegInf = NegInf"
| "fadd (Fin a) (Fin b) = Fin (a + b)"

text \<open>
  \<^verbatim>\<open>*ent.Place\<close> as the optimizer uses it: the id, as the string \<^verbatim>\<open>ID.String()\<close>, and the
  result of \<^verbatim>\<open>Location()\<close>. The type of locations is left open; the optimizer only hands
  locations to the matrix.
\<close>

record 'loc ent_Place =
  ID :: string
  Location :: 'loc

record 'loc DistanceMatrix =
  GetDistance :: "'loc \<Rightarrow> 'loc \<Rightarrow> float64"
  GetTime :: "'loc \<Rightarrow> 'loc \<Rightarrow> int"

record 'loc Visit =
  SequenceOrder :: int
  Place :: "'loc ent_Place"
  ArrivalTime :: Time
  DepartureTime :: Time
  VisitDuration :: int
  TravelTimeFromPrevious :: int
  DistanceFromPrevious :: float64

record 'loc OptimizedRoute =
  Visits :: "'loc Visit list"
  TotalDistanceKm :: float64
  TotalTravelTime :: int
  CompletionTime :: Time
  TimeBufferMinutes :: int
  Feasible :: bool

text \<open>
  The map \<^verbatim>\<open>unvisited\<close>, from \<^verbatim>\<open>p.ID.String()\<close> to \<^verbatim>\<open>p\<close>. Every key is the id of its
  value, so the map is represented by the list of its values, one per id:
  \<open>map_store\<close> is \<^verbatim>\<open>unvisited[p.ID.String()] = p\<close> and \<open>map_delete\<close> is
  \<^verbatim>\<open>delete(unvisited, id)\<close>.
\<close>

fun map_store :: "'loc ent_Place \<Rightarrow> 'loc ent_Place list \<Rightarrow> 'loc ent_Place list" where
  "map_store p [] = [p]"
| "map_store p (q # qs) = (if ID q = ID p then p # qs else q # map_store p qs)"

definition map_delete :: "string \<Rightarrow> 'loc ent_Place list \<Rightarrow> 'loc ent_Place list" where
  "map_delete k m = filter (\<lambda>q. ID q \<noteq> k) m"

text \<open>
  \<^verbatim>\<open>for _, place := range places\<close> over a map: Go leaves the order of the iteration open
  and varies it from one loop to the next. The order of one iteration is given by a ranking
  of the keys, \<open>rank\<close>: the entries are visited by ascending rank. Every ranking gives a
  permutation of the entries, and every permutation comes from some ranking.
\<close>

definition range_order :: "(string \<Rightarrow> nat) \<Rightarrow> 'loc ent_Place list \<Rightarrow> 'loc ent_Place list" where
  "range_order rank m = sort_key (\<lambda>q. rank (ID q)) m"

text \<open>\<^verbatim>\<open>findNearest\<close>: the loop over the map, then the function.\<close>

fun findNearest_loop ::
  "'loc \<Rightarrow> 'loc DistanceMatrix \<Rightarrow> 'loc ent_Place list \<Rightarrow> 'loc ent_Place option \<Rightarrow> float64
   \<Rightarrow> 'loc ent_Place option \<times> float64" where
  "findNearest_loop frm matrix [] nearest minDist = (nearest, minDist)"
| "findNearest_loop frm matrix (place # rest) nearest minDist =
     (let dist = GetDistance matrix frm (Location place)
      in if flt dist minDist then findNearest_loop frm matrix rest (Some place) dist
         else findNearest_loop frm matrix rest nearest minDist)"

definition findNearest ::
  "(string \<Rightarrow> nat) \<Rightarrow> 'loc \<Rightarrow> 'loc ent_Place list \<Rightarrow> 'loc DistanceMatrix
   \<Rightarrow> 'loc ent_Place option \<times> float64" where
  "findNearest rank frm places matrix =
     findNearest_loop frm matrix (range_order rank places) None (Fin MaxFloat64)"

text \<open>The local variables of \<^verbatim>\<open>optimizeRoute\<close> that its loop updates.\<close>

record 'loc loop_state =
  currentLoc :: 'loc
  currentTime :: Time
  unvisited :: "'loc ent_Place list"
  visits :: "'loc Visit list"
  totalDistance :: float64
  totalTravelTime :: int
  sequenceOrder :: int

text \<open>
  The greedy loop of \<^verbatim>\<open>optimizeRoute\<close>. \<open>order n\<close> is the ranking that the map iteration
  of the pass with \<^verbatim>\<open>sequenceOrder\<close> \<open>n\<close> follows. When \<^verbatim>\<open>findNearest\<close> returns a nil
  place, \<^verbatim>\<open>nearestPlace.Location()\<close> dereferences it and the run panics.
\<close>

function optimize_loop ::
  "(int \<Rightarrow> string \<Rightarrow> nat) \<Rightarrow> 'loc DistanceMatrix \<Rightarrow> Time \<Rightarrow> int \<Rightarrow> 'loc loop_state
   \<Rightarrow> error + 'loc OptimizedRoute" where
  "optimize_loop order matrix endTime visitDuration st =
     (if unvisited st = [] then
        Inr \<lparr>Visits = visits st,
             TotalDistanceKm = totalDistance st,
             TotalTravelTime = totalTravelTime st,
             CompletionTime = currentTime st,
             TimeBufferMinutes = Minutes_int (endTime - currentTime st),
             Feasible = True\<rparr>
      else
        (case findNearest (order (sequenceOrder st)) (currentLoc st) (unvisited st) matrix of
           (None, minDist) \<Rightarrow> Inl NilPointerPanic
         | (Some nearestPlace, minDist) \<Rightarrow>
             let travelTime = GetTime matrix (currentLoc st) (Location nearestPlace);
                 arrivalTime = currentTime st + travelTime * Minute;
                 departureTime = arrivalTime + visitDuration * Minute
             in if departureTime > endTime then Inl TimeWindowExceeded
                else
                  optimize_loop order matrix endTime visitDuration
                    \<lparr>currentLoc = Location nearestPlace,
                     currentTime = departureTime,
                     unvisited = map_delete (ID nearestPlace) (unvisited st),
                     visits = visits st @
                       [\<lparr>SequenceOrder = sequenceOrder st,
                         Place = nearestPlace,
                         ArrivalTime = arrivalTime,
                         DepartureTime = departureTime,
                         VisitDuration = visitDuration,
                         TravelTimeFromPrevious = travelTime,
                         DistanceFromPrevious = minDist\<rparr>],
                     totalDistance = fadd (totalDistance st) minDist,
                     totalTravelTime = totalTravelTime st + travelTime,
                     sequenceOrder = sequenceOrder st + 1\<rparr>))"
  by pat_completeness auto
termination
  apply (relation "measure (\<lambda>(order, matrix, endTime, visitDuration, st). length (unvisited st))")
   apply simp
  subgoal premises prems
    for order matrix endTime visitDuration st nearest minDist nearestPlace travelTime arrivalTime departureTime
  proof -
    have loop_mem: "p \<in> set xs \<or> nearest = Some p"
      if "findNearest_loop frm m xs nearest d0 = (Some p, d)"
      for frm and m :: "'a DistanceMatrix" and xs nearest d0 p d
      using that by (induction xs arbitrary: nearest d0) (auto simp: Let_def split: if_splits)
    from prems have "findNearest (order (sequenceOrder st)) (currentLoc st) (unvisited st) matrix
                     = (Some nearestPlace, minDist)"
      by simp
    then have "nearestPlace \<in> set (unvisited st)"
      unfolding findNearest_def range_order_def by (auto dest: loop_mem)
    then have "length (map_delete (ID nearestPlace) (unvisited st)) < length (unvisited st)"
      unfolding map_delete_def by (auto intro: length_filter_less)
    then show ?thesis by simp
  qed
  done

declare optimize_loop.simps [simp del]

text \<open>
  \<^verbatim>\<open>optimizeRoute\<close>. \<open>routingClient\<close> stands for the call
  \<^verbatim>\<open>s.routingClient.GetDistanceMatrix(ctx, startLoc, places, transportMode)\<close>.
\<close>

definition optimizeRoute ::
  "(int \<Rightarrow> string \<Rightarrow> nat)
   \<Rightarrow> ('loc \<Rightarrow> 'loc ent_Place list \<Rightarrow> string \<Rightarrow> error + 'loc DistanceMatrix)
   \<Rightarrow> 'loc \<Rightarrow> 'loc ent_Place list \<Rightarrow> Time \<Rightarrow> Time \<Rightarrow> int \<Rightarrow> string
   \<Rightarrow> error + 'loc OptimizedRoute" where
  "optimizeRoute order routingClient startLoc places startTime endTime visitDuration transportMode =
     (case routingClient startLoc places transportMode of
        Inl err \<Rightarrow> Inl (DistanceMatrixFailed err)
      | Inr matrix \<Rightarrow>
          optimize_loop order matrix endTime visitDuration
            \<lparr>currentLoc = startLoc,
             currentTime = startTime,
             unvisited = foldl (\<lambda>m p. map_store p m) [] places,
             visits = [],
             totalDistance = Fin 0,
             totalTravelTime = 0,
             sequenceOrder = 1\<rparr>)"

subsection \<open>Notions the properties are stated with\<close>

text \<open>
  The two JSON wire forms of a coordinate pair: the GeoJSON Point
  \<^verbatim>\<open>{"type":"Point","coordinates":[lng,lat]}\<close> and the flat object
  \<^verbatim>\<open>{"latitude":lat,"longitude":lng}\<close>.
\<close>

definition geojson_doc :: "real \<Rightarrow> real \<Rightarrow> json" where
  "geojson_doc lng lat =
     JObject [(''type'', JString ''Point''), (''coordinates'', JArray [JNumber lng, JNumber lat])]"

definition flat_doc :: "real \<Rightarrow> real \<Rightarrow> json" where
  "flat_doc lng lat = JObject [(''latitude'', JNumber lat), (''longitude'', JNumber lng)]"


text \<open>A number is in the range of float64 when its literal converts without a range error.\<close>

definition representable :: "real \<Rightarrow> bool" where
  "representable r = (\<bar>r\<bar> < 2 ^ 1024 - 2 ^ 970)"









text \<open>The ids of the places of a route, in the order of the visits.\<close>

definition visit_order :: "'loc OptimizedRoute \<Rightarrow> string list" where
  "visit_order r = map (\<lambda>v. ID (Place v)) (Visits r)"

text \<open>The straight-line distance between two points of the plane, as a distance matrix.\<close>

definition straight_line :: "real \<times> real \<Rightarrow> real \<times> real \<Rightarrow> float64" where
  "straight_line a b = Fin (sqrt ((fst a - fst b)\<^sup>2 + (snd a - snd b)\<^sup>2))"

text \<open>The state of the loop of \<^verbatim>\<open>optimizeRoute\<close> after the visit of \<open>nearestPlace\<close>.\<close>

definition advance ::
  "'loc DistanceMatrix \<Rightarrow> int \<Rightarrow> 'loc loop_state \<Rightarrow> 'loc ent_Place \<Rightarrow> float64 \<Rightarrow> 'loc loop_state" where
  "advance matrix visitDuration st nearestPlace minDist =
     (let travelTime = GetTime matrix (currentLoc st) (Location nearestPlace);
          arrivalTime = currentTime st + travelTime * Minute;
          departureTime = arrivalTime + visitDuration * Minute
      in \<lparr>currentLoc = Location nearestPlace,
          currentTime = departureTime,
          unvisited = map_delete (ID nearestPlace) (unvisited st),
          visits = visits st @
            [\<lparr>SequenceOrder = sequenceOrder st,
              Place = nearestPlace,
              ArrivalTime = arrivalTime,
              DepartureTime = departureTime,
              VisitDuration = visitDuration,
              TravelTimeFromPrevious = travelTime,
              DistanceFromPrevious = minDist\<rparr>],
          totalDistance = fadd (totalDistance st) minDist,
          totalTravelTime = totalTravelTime st + travelTime,
          sequenceOrder = sequenceOrder st + 1\<rparr>)"

text \<open>
  Instances for the examples. Two places half an hour of travel from the start and from each
  other, the first one nearer; and two places at the same distance from the start, with the
  two orders in which a map iteration can meet them.
\<close>

definition two_places :: "string ent_Place list" where
  "two_places = [\<lparr>ID = ''p1'', Location = ''L1''\<rparr>, \<lparr>ID = ''p2'', Location = ''L2''\<rparr>]"

definition half_hour_matrix :: "string DistanceMatrix" where
  "half_hour_matrix =
     \<lparr>GetDistance = (\<lambda>a b. if b = ''L1'' then Fin 1 else Fin 2), GetTime = (\<lambda>a b. 30)\<rparr>"

definition tied_places :: "string ent_Place list" where
  "tied_places = [\<lparr>ID = ''a'', Location = ''La''\<rparr>, \<lparr>ID = ''b'', Location = ''Lb''\<rparr>]"

definition tied_matrix :: "string DistanceMatrix" where
  "tied_matrix = \<lparr>GetDistance = (\<lambda>a b. Fin 1), GetTime = (\<lambda>a b. 10)\<rparr>"

definition a_first :: "int \<Rightarrow> string \<Rightarrow> nat" where
  "a_first n k = (if k = ''a'' then 0 else 1)"

definition b_first :: "int \<Rightarrow> string \<Rightarrow> nat" where
  "b_first n k = (if k = ''b'' then 0 else 1)"

text \<open>The instance of the greedy example: the places A(0,1), B(0,5) and C(0,2), in input order.\<close>

definition ABC :: "(real \<times> real) ent_Place list" where
  "ABC = [\<lparr>ID = ''A'', Location = (0, 1)\<rparr>, \<lparr>ID = ''B'', Location = (0, 5)\<rparr>,
          \<lparr>ID = ''C'', Location = (0, 2)\<rparr>]"

section \<open>Properties\<close>

subsection \<open>Range validation\<close>

lemma IsValid_Fin:
  "IsValid \<lparr>Longitude = Fin x, Latitude = Fin y\<rparr> \<longleftrightarrow> - 90 \<le> y \<and> y \<le> 90 \<and> - 180 \<le> x \<and> x \<le> 180"
  by (auto simp: IsValid_def fgt_def)


lemma IsValid_NaN: "IsValid \<lparr>Longitude = NaN, Latitude = NaN\<rparr>"
  by (simp add: IsValid_def fgt_def)

lemma key_facts:
  "key_is ''type'' ''type''" "key_is ''coordinates'' ''coordinates''"
  "\<not> key_is ''coordinates'' ''type''" "\<not> key_is ''type'' ''coordinates''"
  "key_is ''latitude'' ''latitude''" "key_is ''longitude'' ''longitude''"
  "\<not> key_is ''latitude'' ''longitude''" "\<not> key_is ''longitude'' ''latitude''"
  "\<not> key_is ''latitude'' ''type''" "\<not> key_is ''latitude'' ''coordinates''"
  "\<not> key_is ''longitude'' ''type''" "\<not> key_is ''longitude'' ''coordinates''"
  "\<not> key_is ''type'' ''latitude''" "\<not> key_is ''type'' ''longitude''"
  "\<not> key_is ''coordinates'' ''latitude''" "\<not> key_is ''coordinates'' ''longitude''"
  by (simp_all add: key_is_def upper_def)

lemma literal_representable: "representable r \<Longrightarrow> float64_of_literal r = Some (Fin r)"
  by (simp add: representable_def float64_of_literal_def)

lemma representable_180: "\<bar>r\<bar> \<le> 180 \<Longrightarrow> representable r"
proof -
  assume "\<bar>r\<bar> \<le> 180"
  moreover have "(180::real) < 2 ^ 1024 - 2 ^ 970" by simp
  ultimately show ?thesis unfolding representable_def by (simp del: power_numeral)
qed

lemma Unmarshal_GeoJSONPoint_geojson_doc:
  "representable x \<Longrightarrow> representable y \<Longrightarrow>
   Unmarshal_GeoJSONPoint (Some (geojson_doc x y)) = Inr \<lparr>Type = ''Point'', Coordinates = [Fin x, Fin y]\<rparr>"
  by (simp add: geojson_doc_def key_facts literal_representable)

lemma Unmarshal_GeoJSONPoint_flat_doc:
  "Unmarshal_GeoJSONPoint (Some (flat_doc x y)) = Inr \<lparr>Type = [], Coordinates = []\<rparr>"
  by (simp add: flat_doc_def key_facts)

lemma Unmarshal_alias_flat_doc:
  "representable x \<Longrightarrow> representable y \<Longrightarrow>
   Unmarshal_alias (Some (flat_doc x y)) = Inr \<lparr>alias_Longitude = Fin x, alias_Latitude = Fin y\<rparr>"
  by (simp add: flat_doc_def key_facts literal_representable)

lemma UnmarshalJSON_geojson_doc:
  "representable x \<Longrightarrow> representable y \<Longrightarrow>
   UnmarshalJSON q (Some (geojson_doc x y)) =
     (if - 90 \<le> y \<and> y \<le> 90 \<and> - 180 \<le> x \<and> x \<le> 180
      then (\<lparr>Longitude = Fin x, Latitude = Fin y\<rparr>, None)
      else (q, Some CoordinatesOutOfRange))"
  by (simp add: UnmarshalJSON_def Unmarshal_GeoJSONPoint_geojson_doc PointFromGeoJSON_def IsValid_Fin)

lemma Point_overwrite:
  "(q::Point)\<lparr>Longitude := a, Latitude := b\<rparr> = \<lparr>Longitude = a, Latitude = b\<rparr>"
  by (cases q) simp

lemma UnmarshalJSON_flat_doc:
  "representable x \<Longrightarrow> representable y \<Longrightarrow>
   UnmarshalJSON (q::Point) (Some (flat_doc x y)) =
     (\<lparr>Longitude = Fin x, Latitude = Fin y\<rparr>,
      if - 90 \<le> y \<and> y \<le> 90 \<and> - 180 \<le> x \<and> x \<le> 180 then None else Some CoordinatesOutOfRange)"
  by (simp add: UnmarshalJSON_def Unmarshal_GeoJSONPoint_flat_doc UnmarshalJSON_fallback_def
      Unmarshal_alias_flat_doc Point_overwrite IsValid_Fin Let_def)

lemma PointFromGeoJSON_valid: "PointFromGeoJSON gj = Inr p \<Longrightarrow> IsValid p"
  by (auto simp: PointFromGeoJSON_def Let_def split: if_splits)

lemma UnmarshalJSON_valid:
  "snd (UnmarshalJSON q d) = None \<Longrightarrow> IsValid (fst (UnmarshalJSON q d))"
  by (auto simp: UnmarshalJSON_def UnmarshalJSON_fallback_def Let_def
      split: sum.splits if_splits dest: PointFromGeoJSON_valid)

lemma PointFromWKT_valid: "PointFromWKT sc w = Inr p \<Longrightarrow> IsValid p"
  by (auto simp: PointFromWKT_def Let_def split: if_splits)




subsection \<open>JSON decoding and encoding\<close>

lemma members_alias_skip:
  "\<forall>(k, j) \<in> set ms. \<not> key_is k ''longitude'' \<and> \<not> key_is k ''latitude'' \<Longrightarrow>
   members_alias a ms = Inr a"
  by (induction ms arbitrary: a) auto

lemma members_GeoJSONPoint_skip:
  "\<forall>(k, j) \<in> set ms. \<not> key_is k ''type'' \<and> \<not> key_is k ''coordinates'' \<Longrightarrow>
   members_GeoJSONPoint g ms = Inr g"
  by (induction ms arbitrary: g) auto

lemma UnmarshalJSON_foreign_object:
  assumes "\<forall>(k, j) \<in> set ms. \<not> key_is k ''type'' \<and> \<not> key_is k ''coordinates''
                            \<and> \<not> key_is k ''longitude'' \<and> \<not> key_is k ''latitude''"
  shows "UnmarshalJSON (q::Point) (Some (JObject ms)) = (\<lparr>Longitude = Fin 0, Latitude = Fin 0\<rparr>, None)"
proof -
  have g: "members_GeoJSONPoint \<lparr>Type = [], Coordinates = []\<rparr> ms = Inr \<lparr>Type = [], Coordinates = []\<rparr>"
    using assms by (intro members_GeoJSONPoint_skip) auto
  have a: "members_alias \<lparr>alias_Longitude = Fin 0, alias_Latitude = Fin 0\<rparr> ms
           = Inr \<lparr>alias_Longitude = Fin 0, alias_Latitude = Fin 0\<rparr>"
    using assms by (intro members_alias_skip) auto
  show ?thesis
    by (simp add: UnmarshalJSON_def UnmarshalJSON_fallback_def g a Point_overwrite IsValid_Fin)
qed

lemma UnmarshalJSON_null:
  "UnmarshalJSON (q::Point) (Some JNull) = (\<lparr>Longitude = Fin 0, Latitude = Fin 0\<rparr>, None)"
  by (simp add: UnmarshalJSON_def UnmarshalJSON_fallback_def Point_overwrite IsValid_Fin)

lemma UnmarshalJSON_not_json: "UnmarshalJSON q None = (q, Some JSONSyntaxError)"
  by (simp add: UnmarshalJSON_def UnmarshalJSON_fallback_def)

lemma UnmarshalJSON_wrong_kind:
  "j = JBool b \<or> j = JNumber r \<or> j = JString s \<or> j = JArray js \<Longrightarrow>
   UnmarshalJSON q (Some j) = (q, Some JSONUnmarshalTypeError)"
  by (auto simp: UnmarshalJSON_def UnmarshalJSON_fallback_def)

text \<open>
  A number too large for float64 makes the decoding of a GeoJSON Point fail with a type
  error; the fallback then finds no flat member and returns the point (0, 0).
\<close>

lemma UnmarshalJSON_overflowing_number:
  "UnmarshalJSON (q::Point) (Some (geojson_doc (10 ^ 400) 0)) = (\<lparr>Longitude = Fin 0, Latitude = Fin 0\<rparr>, None)"
proof -
  have "\<not> \<bar>10 ^ 400 :: real\<bar> < 2 ^ 1024 - 2 ^ 970"
    by simp
  then show ?thesis
    by (simp add: UnmarshalJSON_def UnmarshalJSON_fallback_def geojson_doc_def key_facts
        float64_of_literal_def Point_overwrite IsValid_Fin del: power_numeral)
qed

lemma decode_float64_finite:
  "decode_float64 cur j = Inr v \<Longrightarrow> \<not> nonfinite cur \<Longrightarrow> \<not> nonfinite v"
  by (cases j) (auto simp: float64_of_literal_def split: if_splits)

lemma members_alias_finite:
  "members_alias a ms = Inr a' \<Longrightarrow> \<not> nonfinite (alias_Longitude a) \<Longrightarrow> \<not> nonfinite (alias_Latitude a)
   \<Longrightarrow> \<not> nonfinite (alias_Longitude a') \<and> \<not> nonfinite (alias_Latitude a')"
proof (induction ms arbitrary: a)
  case Nil
  then show ?case by simp
next
  case (Cons m ms)
  obtain k j where m: "m = (k, j)" by (cases m)
  show ?case
  proof (cases "key_is k ''longitude''")
    case True
    with Cons.prems m obtain v where v: "decode_float64 (alias_Longitude a) j = Inr v"
      and r: "members_alias (a\<lparr>alias_Longitude := v\<rparr>) ms = Inr a'"
      by (auto split: sum.splits)
    from v Cons.prems(2) have "\<not> nonfinite v" by (rule decode_float64_finite)
    with Cons.IH [OF r] Cons.prems(3) show ?thesis by simp
  next
    case False
    note nl = this
    show ?thesis
    proof (cases "key_is k ''latitude''")
      case True
      with Cons.prems m nl obtain v where v: "decode_float64 (alias_Latitude a) j = Inr v"
        and r: "members_alias (a\<lparr>alias_Latitude := v\<rparr>) ms = Inr a'"
        by (auto split: sum.splits)
      from v Cons.prems(3) have "\<not> nonfinite v" by (rule decode_float64_finite)
      with Cons.IH [OF r] Cons.prems(2) show ?thesis by simp
    next
      case False
      with Cons.prems m nl have "members_alias a ms = Inr a'" by simp
      from Cons.IH [OF this Cons.prems(2,3)] show ?thesis .
    qed
  qed
qed

lemma decode_elems_finite:
  "decode_elems cur js = Inr xs \<Longrightarrow> \<forall>c \<in> set cur. \<not> nonfinite c \<Longrightarrow> \<forall>v \<in> set xs. \<not> nonfinite v"
proof (induction js arbitrary: cur xs)
  case Nil
  then show ?case by simp
next
  case (Cons j js)
  from Cons.prems(1) obtain v vs where
    v: "decode_float64 (case cur of [] \<Rightarrow> Fin 0 | c # cs \<Rightarrow> c) j = Inr v"
    and vs: "decode_elems (tl cur) js = Inr vs" and xs: "xs = v # vs"
    by (auto split: sum.splits)
  have "\<not> nonfinite (case cur of [] \<Rightarrow> Fin 0 | c # cs \<Rightarrow> c)"
    using Cons.prems(2) by (cases cur) auto
  with v have "\<not> nonfinite v" by (rule decode_float64_finite)
  moreover have "\<forall>c \<in> set (tl cur). \<not> nonfinite c"
    using Cons.prems(2) by (cases cur) auto
  from Cons.IH [OF vs this] have "\<forall>v \<in> set vs. \<not> nonfinite v" .
  ultimately show ?case using xs by simp
qed

lemma decode_slice_finite:
  "decode_slice cur j = Inr xs \<Longrightarrow> \<forall>c \<in> set cur. \<not> nonfinite c \<Longrightarrow> \<forall>v \<in> set xs. \<not> nonfinite v"
  by (cases j) (auto dest: decode_elems_finite)

lemma members_GeoJSONPoint_finite:
  "members_GeoJSONPoint g ms = Inr g' \<Longrightarrow> \<forall>c \<in> set (Coordinates g). \<not> nonfinite c
   \<Longrightarrow> \<forall>c \<in> set (Coordinates g'). \<not> nonfinite c"
proof (induction ms arbitrary: g)
  case Nil
  then show ?case by simp
next
  case (Cons m ms)
  obtain k j where m: "m = (k, j)" by (cases m)
  show ?case
  proof (cases "key_is k ''type''")
    case True
    with Cons.prems m obtain s where r: "members_GeoJSONPoint (g\<lparr>Type := s\<rparr>) ms = Inr g'"
      by (auto split: sum.splits)
    from Cons.IH [OF r] Cons.prems(2) show ?thesis by simp
  next
    case False
    note nt = this
    show ?thesis
    proof (cases "key_is k ''coordinates''")
      case True
      with Cons.prems m nt obtain xs where xs: "decode_slice (Coordinates g) j = Inr xs"
        and r: "members_GeoJSONPoint (g\<lparr>Coordinates := xs\<rparr>) ms = Inr g'"
        by (auto split: sum.splits)
      from decode_slice_finite [OF xs Cons.prems(2)] Cons.IH [OF r] show ?thesis by simp
    next
      case False
      with Cons.prems m nt have "members_GeoJSONPoint g ms = Inr g'" by simp
      from Cons.IH [OF this Cons.prems(2)] show ?thesis .
    qed
  qed
qed

lemma Unmarshal_GeoJSONPoint_finite:
  "Unmarshal_GeoJSONPoint d = Inr g \<Longrightarrow> \<forall>c \<in> set (Coordinates g). \<not> nonfinite c"
proof (cases d)
  case None
  assume "Unmarshal_GeoJSONPoint d = Inr g"
  with None show ?thesis by simp
next
  case (Some j)
  assume "Unmarshal_GeoJSONPoint d = Inr g"
  with Some show ?thesis
    by (cases j) (auto dest: members_GeoJSONPoint_finite)
qed

lemma Unmarshal_alias_finite:
  "Unmarshal_alias d = Inr a \<Longrightarrow> \<not> nonfinite (alias_Longitude a) \<and> \<not> nonfinite (alias_Latitude a)"
proof (cases d)
  case None
  assume "Unmarshal_alias d = Inr a"
  with None show ?thesis by simp
next
  case (Some j)
  assume "Unmarshal_alias d = Inr a"
  with Some show ?thesis
    by (cases j) (auto dest: members_alias_finite)
qed

lemma UnmarshalJSON_finite:
  assumes "snd (UnmarshalJSON q d) = None"
  shows "\<not> nonfinite (Longitude (fst (UnmarshalJSON q d))) \<and> \<not> nonfinite (Latitude (fst (UnmarshalJSON q d)))"
proof (cases "\<exists>g. Unmarshal_GeoJSONPoint d = Inr g \<and> Type g = ''Point''")
  case True
  then obtain g where g: "Unmarshal_GeoJSONPoint d = Inr g" "Type g = ''Point''" by blast
  with assms obtain p where p: "PointFromGeoJSON g = Inr p" and u: "UnmarshalJSON q d = (p, None)"
    by (auto simp: UnmarshalJSON_def split: sum.splits)
  from p have "length (Coordinates g) = 2" "Longitude p = Coordinates g ! 0" "Latitude p = Coordinates g ! 1"
    by (auto simp: PointFromGeoJSON_def Let_def split: if_splits)
  with Unmarshal_GeoJSONPoint_finite [OF g(1)] u show ?thesis
    by simp
next
  case False
  then have fb: "UnmarshalJSON q d = UnmarshalJSON_fallback q d"
    by (auto simp: UnmarshalJSON_def split: sum.splits)
  with assms obtain a where a: "Unmarshal_alias d = Inr a"
    by (auto simp: UnmarshalJSON_fallback_def split: sum.splits)
  with Unmarshal_alias_finite [OF a] fb show ?thesis
    by (simp add: UnmarshalJSON_fallback_def Let_def)
qed

lemma finite_valid_Point:
  assumes "IsValid p" "\<not> nonfinite (Longitude p)" "\<not> nonfinite (Latitude p)"
  obtains x y where "p = \<lparr>Longitude = Fin x, Latitude = Fin y\<rparr>"
    "- 90 \<le> y" "y \<le> 90" "- 180 \<le> x" "x \<le> 180"
proof -
  obtain lng lat where p: "p = \<lparr>Longitude = lng, Latitude = lat\<rparr>" by (cases p) auto
  with assms obtain x y where "lng = Fin x" "lat = Fin y"
    by (cases lng; cases lat) auto
  with p assms(1) that show ?thesis by (simp add: IsValid_Fin)
qed

lemma MarshalJSON_Fin: "MarshalJSON \<lparr>Longitude = Fin x, Latitude = Fin y\<rparr> = Inr (geojson_doc x y)"
  by (simp add: MarshalJSON_def ToGeoJSON_def Marshal_GeoJSONPoint_def geojson_doc_def)


text \<open>
  C1, as amended. Decoding tries the GeoJSON Point form first: when the input decodes to a
  GeoJSON struct of type "Point" the result is decided there, without a fallback. Otherwise
  it falls back to the flat form. It answers with an error when the input is not JSON, is a
  JSON value other than an object or null, or the coordinates fail the range check, so every
  point returned is in range. The flat form reads an absent member as 0: null, and an
  object with neither form's members, decode to the point (0, 0).
\<close>

theorem UnmarshalJSON_two_forms:
  "(Unmarshal_GeoJSONPoint d = Inr g \<and> Type g = ''Point'' \<longrightarrow>
      UnmarshalJSON q d =
        (case PointFromGeoJSON g of Inl err \<Rightarrow> (q, Some err) | Inr parsed \<Rightarrow> (parsed, None)))
   \<and> ((\<forall>g'. Unmarshal_GeoJSONPoint d = Inr g' \<longrightarrow> Type g' \<noteq> ''Point'') \<longrightarrow>
        UnmarshalJSON q d = UnmarshalJSON_fallback q d)
   \<and> (- 90 \<le> y \<and> y \<le> 90 \<and> - 180 \<le> x \<and> x \<le> 180 \<longrightarrow>
        UnmarshalJSON q (Some (geojson_doc x y)) = (\<lparr>Longitude = Fin x, Latitude = Fin y\<rparr>, None)
        \<and> UnmarshalJSON q (Some (flat_doc x y)) = (\<lparr>Longitude = Fin x, Latitude = Fin y\<rparr>, None))
   \<and> UnmarshalJSON q None = (q, Some JSONSyntaxError)
   \<and> (j = JBool b \<or> j = JNumber r \<or> j = JString s \<or> j = JArray js \<longrightarrow>
        UnmarshalJSON q (Some j) = (q, Some JSONUnmarshalTypeError))
   \<and> (snd (UnmarshalJSON q d) = None \<longrightarrow> IsValid (fst (UnmarshalJSON q d)))
   \<and> UnmarshalJSON q (Some JNull) = (\<lparr>Longitude = Fin 0, Latitude = Fin 0\<rparr>, None)
   \<and> ((\<forall>(k, v) \<in> set ms. \<not> key_is k ''type'' \<and> \<not> key_is k ''coordinates''
                           \<and> \<not> key_is k ''longitude'' \<and> \<not> key_is k ''latitude'') \<longrightarrow>
        UnmarshalJSON q (Some (JObject ms)) = (\<lparr>Longitude = Fin 0, Latitude = Fin 0\<rparr>, None))"
proof -
  have 1: "Unmarshal_GeoJSONPoint d = Inr g \<and> Type g = ''Point'' \<longrightarrow>
      UnmarshalJSON q d =
        (case PointFromGeoJSON g of Inl err \<Rightarrow> (q, Some err) | Inr parsed \<Rightarrow> (parsed, None))"
    by (simp add: UnmarshalJSON_def)
  have 2: "(\<forall>g'. Unmarshal_GeoJSONPoint d = Inr g' \<longrightarrow> Type g' \<noteq> ''Point'') \<longrightarrow>
        UnmarshalJSON q d = UnmarshalJSON_fallback q d"
    by (auto simp: UnmarshalJSON_def split: sum.splits)
  have 3: "- 90 \<le> y \<and> y \<le> 90 \<and> - 180 \<le> x \<and> x \<le> 180 \<longrightarrow>
        UnmarshalJSON q (Some (geojson_doc x y)) = (\<lparr>Longitude = Fin x, Latitude = Fin y\<rparr>, None)
        \<and> UnmarshalJSON q (Some (flat_doc x y)) = (\<lparr>Longitude = Fin x, Latitude = Fin y\<rparr>, None)"
  proof
    assume r: "- 90 \<le> y \<and> y \<le> 90 \<and> - 180 \<le> x \<and> x \<le> 180"
    then have "representable x" "representable y"
      by (auto intro!: representable_180)
    with r show "UnmarshalJSON q (Some (geojson_doc x y)) = (\<lparr>Longitude = Fin x, Latitude = Fin y\<rparr>, None)
        \<and> UnmarshalJSON q (Some (flat_doc x y)) = (\<lparr>Longitude = Fin x, Latitude = Fin y\<rparr>, None)"
      by (simp add: UnmarshalJSON_geojson_doc UnmarshalJSON_flat_doc)
  qed
  have 5: "j = JBool b \<or> j = JNumber r \<or> j = JString s \<or> j = JArray js \<longrightarrow>
        UnmarshalJSON q (Some j) = (q, Some JSONUnmarshalTypeError)"
    using UnmarshalJSON_wrong_kind by blast
  have 6: "snd (UnmarshalJSON q d) = None \<longrightarrow> IsValid (fst (UnmarshalJSON q d))"
    using UnmarshalJSON_valid by blast
  have 8: "(\<forall>(k, v) \<in> set ms. \<not> key_is k ''type'' \<and> \<not> key_is k ''coordinates''
                           \<and> \<not> key_is k ''longitude'' \<and> \<not> key_is k ''latitude'') \<longrightarrow>
        UnmarshalJSON q (Some (JObject ms)) = (\<lparr>Longitude = Fin 0, Latitude = Fin 0\<rparr>, None)"
    using UnmarshalJSON_foreign_object by blast
  from 1 2 3 5 6 8 UnmarshalJSON_not_json [of q] UnmarshalJSON_null [of q] show ?thesis
    by blast
qed

theorem UnmarshalJSON_two_forms_witness:
  "UnmarshalJSON \<lparr>Longitude = Fin 1, Latitude = Fin 1\<rparr> (Some (geojson_doc 73 19))
     = (\<lparr>Longitude = Fin 73, Latitude = Fin 19\<rparr>, None)
   \<and> UnmarshalJSON \<lparr>Longitude = Fin 1, Latitude = Fin 1\<rparr> (Some (flat_doc 73 19))
     = (\<lparr>Longitude = Fin 73, Latitude = Fin 19\<rparr>, None)
   \<and> UnmarshalJSON \<lparr>Longitude = Fin 1, Latitude = Fin 1\<rparr> (Some (JArray [JNumber 73, JNumber 19]))
     = (\<lparr>Longitude = Fin 1, Latitude = Fin 1\<rparr>, Some JSONUnmarshalTypeError)
   \<and> UnmarshalJSON \<lparr>Longitude = Fin 1, Latitude = Fin 1\<rparr> (Some (JObject [(''name'', JString ''Nashik'')]))
     = (\<lparr>Longitude = Fin 0, Latitude = Fin 0\<rparr>, None)"
proof -
  have a: "(- 90::real) \<le> 19 \<and> (19::real) \<le> 90 \<and> (- 180::real) \<le> 73 \<and> (73::real) \<le> 180"
    by simp
  have b: "\<forall>(k, v) \<in> set [(''name'', JString ''Nashik'')].
             \<not> key_is k ''type'' \<and> \<not> key_is k ''coordinates''
             \<and> \<not> key_is k ''longitude'' \<and> \<not> key_is k ''latitude''"
    by (simp add: key_is_def upper_def)
  show ?thesis
    using a b
      UnmarshalJSON_two_forms [where x = 73 and y = 19 and q = "\<lparr>Longitude = Fin 1, Latitude = Fin 1\<rparr>"
        and j = "JArray [JNumber 73, JNumber 19]" and js = "[JNumber 73, JNumber 19]"
        and ms = "[(''name'', JString ''Nashik'')]"]
    by blast
qed

text \<open>
  C1 as stated fails: the object \<^verbatim>\<open>{"name":"Nashik"}\<close> has neither form, and decoding it
  into a point that held (73, 19) returns no error and leaves the point (0, 0).
\<close>

theorem UnmarshalJSON_counterexample:
  "UnmarshalJSON \<lparr>Longitude = Fin 73, Latitude = Fin 19\<rparr> (Some (JObject [(''name'', JString ''Nashik'')]))
     = (\<lparr>Longitude = Fin 0, Latitude = Fin 0\<rparr>, None)"
  by (simp add: UnmarshalJSON_def UnmarshalJSON_fallback_def key_is_def upper_def IsValid_def fgt_def)

text \<open>
  C3. For a point with coordinates in range, \<^verbatim>\<open>MarshalJSON\<close> writes the GeoJSON Point form
  and decoding that form gives the point back. The form written depends on the point alone:
  whatever input a point was decoded from, it is encoded as the GeoJSON Point of its
  coordinates, and decoding that returns the same point.
\<close>

theorem MarshalJSON_roundtrip:
  "(- 90 \<le> y \<and> y \<le> 90 \<and> - 180 \<le> x \<and> x \<le> 180 \<longrightarrow>
      MarshalJSON \<lparr>Longitude = Fin x, Latitude = Fin y\<rparr> = Inr (geojson_doc x y)
      \<and> UnmarshalJSON q (Some (geojson_doc x y)) = (\<lparr>Longitude = Fin x, Latitude = Fin y\<rparr>, None))
   \<and> (snd (UnmarshalJSON q d) = None \<longrightarrow>
        (\<exists>lng lat. MarshalJSON (fst (UnmarshalJSON q d)) = Inr (geojson_doc lng lat)
           \<and> UnmarshalJSON q' (Some (geojson_doc lng lat)) = (fst (UnmarshalJSON q d), None)))"
proof -
  have rt: "MarshalJSON \<lparr>Longitude = Fin a, Latitude = Fin b\<rparr> = Inr (geojson_doc a b)
      \<and> UnmarshalJSON r (Some (geojson_doc a b)) = (\<lparr>Longitude = Fin a, Latitude = Fin b\<rparr>, None)"
    if "- 90 \<le> b" "b \<le> 90" "- 180 \<le> a" "a \<le> 180" for a b r
  proof -
    from that have "representable a" "representable b"
      by (auto intro!: representable_180)
    with that show ?thesis
      by (simp add: MarshalJSON_Fin UnmarshalJSON_geojson_doc)
  qed
  have 2: "\<exists>lng lat. MarshalJSON (fst (UnmarshalJSON q d)) = Inr (geojson_doc lng lat)
           \<and> UnmarshalJSON q' (Some (geojson_doc lng lat)) = (fst (UnmarshalJSON q d), None)"
    if ok: "snd (UnmarshalJSON q d) = None"
  proof -
    from UnmarshalJSON_valid [OF ok] UnmarshalJSON_finite [OF ok]
    obtain a b where p: "fst (UnmarshalJSON q d) = \<lparr>Longitude = Fin a, Latitude = Fin b\<rparr>"
      and r: "- 90 \<le> b" "b \<le> 90" "- 180 \<le> a" "a \<le> 180"
      by (elim finite_valid_Point conjE)
    from rt [OF r, of q'] p show ?thesis by auto
  qed
  from rt [of y x q] 2 show ?thesis by blast
qed

theorem MarshalJSON_roundtrip_witness:
  "MarshalJSON \<lparr>Longitude = Fin (- 180), Latitude = Fin 90\<rparr> = Inr (geojson_doc (- 180) 90)
   \<and> UnmarshalJSON \<lparr>Longitude = Fin 0, Latitude = Fin 0\<rparr> (Some (geojson_doc (- 180) 90))
       = (\<lparr>Longitude = Fin (- 180), Latitude = Fin 90\<rparr>, None)
   \<and> snd (UnmarshalJSON \<lparr>Longitude = Fin 0, Latitude = Fin 0\<rparr> (Some (flat_doc 73 19))) = None
   \<and> (\<exists>lng lat.
         MarshalJSON (fst (UnmarshalJSON \<lparr>Longitude = Fin 0, Latitude = Fin 0\<rparr> (Some (flat_doc 73 19))))
           = Inr (geojson_doc lng lat)
         \<and> UnmarshalJSON \<lparr>Longitude = Fin 5, Latitude = Fin 5\<rparr> (Some (geojson_doc lng lat))
           = (fst (UnmarshalJSON \<lparr>Longitude = Fin 0, Latitude = Fin 0\<rparr> (Some (flat_doc 73 19))), None))"
proof -
  have a: "(- 90::real) \<le> 90 \<and> (90::real) \<le> 90 \<and> (- 180::real) \<le> - 180 \<and> (- 180::real) \<le> 180"
    by simp
  have b: "snd (UnmarshalJSON \<lparr>Longitude = Fin 0, Latitude = Fin 0\<rparr> (Some (flat_doc 73 19))) = None"
    by (simp add: UnmarshalJSON_flat_doc representable_180)
  show ?thesis
    using a b
      MarshalJSON_roundtrip [where x = "- 180" and y = 90 and q = "\<lparr>Longitude = Fin 0, Latitude = Fin 0\<rparr>"
        and d = "Some (flat_doc 73 19)" and q' = "\<lparr>Longitude = Fin 5, Latitude = Fin 5\<rparr>"]
    by blast
qed




subsection \<open>Well-Known Text\<close>


















subsection \<open>The route optimizer\<close>

lemma flt_irrefl: "\<not> flt x x"
  by (cases x) auto

lemma flt_trans: "flt x y \<Longrightarrow> flt y z \<Longrightarrow> flt x z"
  by (cases x; cases y; cases z) auto

lemma flt_asym: "flt x y \<Longrightarrow> \<not> flt y x"
  by (cases x; cases y) auto

lemma flt_trichotomy: "flt x b \<Longrightarrow> flt y b' \<Longrightarrow> \<not> flt x y \<Longrightarrow> \<not> flt y x \<Longrightarrow> x = y"
  by (cases x; cases y; cases b; cases b') auto

text \<open>
  What \<^verbatim>\<open>findNearest\<close>'s loop returns: its starting pair when no place is strictly nearer
  than the starting distance, and otherwise a place of the list with its distance, which no
  place of the list undercuts.
\<close>

lemma findNearest_loop_result:
  "findNearest_loop frm matrix xs nearest d0 = (n, d) \<Longrightarrow>
     (n = nearest \<and> d = d0 \<and> (\<forall>q \<in> set xs. \<not> flt (GetDistance matrix frm (Location q)) d0))
     \<or> (\<exists>p \<in> set xs. n = Some p \<and> d = GetDistance matrix frm (Location p) \<and> flt d d0
           \<and> (\<forall>q \<in> set xs. \<not> flt (GetDistance matrix frm (Location q)) d))"
proof (induction xs arbitrary: nearest d0)
  case Nil
  then show ?case by simp
next
  case (Cons p rest)
  let ?dist = "\<lambda>q. GetDistance matrix frm (Location q)"
  show ?case
  proof (cases "flt (?dist p) d0")
    case True
    with Cons.prems have "findNearest_loop frm matrix rest (Some p) (?dist p) = (n, d)"
      by (simp add: Let_def)
    from Cons.IH [OF this] show ?thesis
    proof
      assume "n = Some p \<and> d = ?dist p \<and> (\<forall>q \<in> set rest. \<not> flt (?dist q) (?dist p))"
      with True show ?thesis by (auto simp: flt_irrefl)
    next
      assume "\<exists>p' \<in> set rest. n = Some p' \<and> d = ?dist p' \<and> flt d (?dist p)
                \<and> (\<forall>q \<in> set rest. \<not> flt (?dist q) d)"
      then obtain p' where p': "p' \<in> set rest" "n = Some p'" "d = ?dist p'" "flt d (?dist p)"
        "\<forall>q \<in> set rest. \<not> flt (?dist q) d" by blast
      from p'(4) True have "flt d d0" by (rule flt_trans)
      moreover from p'(4) have "\<not> flt (?dist p) d" by (rule flt_asym)
      ultimately show ?thesis using p' by auto
    qed
  next
    case False
    with Cons.prems have "findNearest_loop frm matrix rest nearest d0 = (n, d)"
      by (simp add: Let_def)
    from Cons.IH [OF this] show ?thesis
    proof
      assume "n = nearest \<and> d = d0 \<and> (\<forall>q \<in> set rest. \<not> flt (?dist q) d0)"
      with False show ?thesis by auto
    next
      assume "\<exists>p' \<in> set rest. n = Some p' \<and> d = ?dist p' \<and> flt d d0
                \<and> (\<forall>q \<in> set rest. \<not> flt (?dist q) d)"
      then obtain p' where p': "p' \<in> set rest" "n = Some p'" "d = ?dist p'" "flt d d0"
        "\<forall>q \<in> set rest. \<not> flt (?dist q) d" by blast
      have "\<not> flt (?dist p) d"
        using False p'(4) flt_trans by blast
      with p' show ?thesis by auto
    qed
  qed
qed

lemma findNearest_result:
  assumes "findNearest rank frm places matrix = (n, d)"
  shows "(n = None \<and> d = Fin MaxFloat64
          \<and> (\<forall>q \<in> set places. \<not> flt (GetDistance matrix frm (Location q)) (Fin MaxFloat64)))
     \<or> (\<exists>p \<in> set places. n = Some p \<and> d = GetDistance matrix frm (Location p) \<and> flt d (Fin MaxFloat64)
           \<and> (\<forall>q \<in> set places. \<not> flt (GetDistance matrix frm (Location q)) d))"
  using findNearest_loop_result [OF assms [unfolded findNearest_def]]
  by (simp add: range_order_def)

lemma findNearest_mem:
  "findNearest rank frm places matrix = (Some p, d) \<Longrightarrow> p \<in> set places"
  by (drule findNearest_result) auto

text \<open>A place strictly nearer than every other one is chosen, whatever the iteration order.\<close>

lemma findNearest_strict_minimum:
  assumes "p \<in> set places" "flt (GetDistance matrix frm (Location p)) (Fin MaxFloat64)"
    and "\<forall>q \<in> set places. q \<noteq> p \<longrightarrow> flt (GetDistance matrix frm (Location p)) (GetDistance matrix frm (Location q))"
  shows "findNearest rank frm places matrix = (Some p, GetDistance matrix frm (Location p))"
proof -
  obtain n d where r: "findNearest rank frm places matrix = (n, d)" by (cases "findNearest rank frm places matrix")
  from findNearest_result [OF r] assms(1,2)
  obtain p' where p': "p' \<in> set places" "n = Some p'" "d = GetDistance matrix frm (Location p')"
    "\<forall>q \<in> set places. \<not> flt (GetDistance matrix frm (Location q)) d" by blast
  have "p' = p"
  proof (rule ccontr)
    assume "p' \<noteq> p"
    with assms(3) p'(1) have "flt (GetDistance matrix frm (Location p)) (GetDistance matrix frm (Location p'))"
      by blast
    with p'(3,4) assms(1) show False by blast
  qed
  with r p' show ?thesis by simp
qed

text \<open>Without ties the choice does not depend on the iteration order.\<close>

lemma findNearest_order_independent:
  assumes "\<forall>p \<in> set places. \<forall>q \<in> set places.
             GetDistance matrix frm (Location p) = GetDistance matrix frm (Location q) \<longrightarrow> p = q"
  shows "findNearest rank1 frm places matrix = findNearest rank2 frm places matrix"
proof -
  let ?dist = "\<lambda>q. GetDistance matrix frm (Location q)"
  obtain n1 d1 where r1: "findNearest rank1 frm places matrix = (n1, d1)"
    by (cases "findNearest rank1 frm places matrix")
  obtain n2 d2 where r2: "findNearest rank2 frm places matrix = (n2, d2)"
    by (cases "findNearest rank2 frm places matrix")
  from findNearest_result [OF r1] findNearest_result [OF r2]
  have "(n1, d1) = (n2, d2)"
  proof (elim disjE bexE conjE)
    assume "n1 = None" "d1 = Fin MaxFloat64" "n2 = None" "d2 = Fin MaxFloat64"
    then show ?thesis by simp
  next
    fix p
    assume "\<forall>q \<in> set places. \<not> flt (?dist q) (Fin MaxFloat64)" "p \<in> set places"
      "d2 = ?dist p" "flt d2 (Fin MaxFloat64)"
    then show ?thesis by blast
  next
    fix p
    assume "\<forall>q \<in> set places. \<not> flt (?dist q) (Fin MaxFloat64)" "p \<in> set places"
      "d1 = ?dist p" "flt d1 (Fin MaxFloat64)"
    then show ?thesis by blast
  next
    fix p1 p2
    assume 1: "p1 \<in> set places" "n1 = Some p1" "d1 = ?dist p1" "flt d1 (Fin MaxFloat64)"
      "\<forall>q \<in> set places. \<not> flt (?dist q) d1"
      and 2: "p2 \<in> set places" "n2 = Some p2" "d2 = ?dist p2" "flt d2 (Fin MaxFloat64)"
      "\<forall>q \<in> set places. \<not> flt (?dist q) d2"
    from 1 2 have "\<not> flt d2 d1" "\<not> flt d1 d2" by auto
    with 1(4) 2(4) have "d1 = d2" by (metis flt_trichotomy)
    with assms 1 2 show ?thesis by auto
  qed
  with r1 r2 show ?thesis by simp
qed

lemma first_index:
  assumes "distinct xs" "i < length xs"
  shows "length (takeWhile (\<lambda>x. x \<noteq> xs ! i) xs) = i"
proof -
  let ?j = "length (takeWhile (\<lambda>x. x \<noteq> xs ! i) xs)"
  have "xs ! i \<in> set xs" using assms(2) by simp
  then have "takeWhile (\<lambda>x. x \<noteq> xs ! i) xs \<noteq> xs"
    by auto
  then have "?j \<noteq> length xs"
    by (metis takeWhile_eq_take take_all order_refl)
  with length_takeWhile_le [of "\<lambda>x. x \<noteq> xs ! i" xs] have j: "?j < length xs"
    by simp
  from nth_length_takeWhile [OF j] have "xs ! ?j = xs ! i" by simp
  with assms j show ?thesis
    by (simp add: nth_eq_iff_index_eq)
qed

text \<open>Every order of the entries of the map is the iteration order of some ranking.\<close>

lemma range_order_any_permutation:
  assumes "distinct (map ID m)" "mset ys = mset m"
  shows "\<exists>rank. range_order rank m = ys"
proof -
  define ks where "ks = map ID ys"
  define rank where "rank k = length (takeWhile (\<lambda>x. x \<noteq> k) ks)" for k
  have "mset (map ID ys) = mset (map ID m)" using assms(2) by simp
  with assms(1) have dk: "distinct ks"
    unfolding ks_def by (metis distinct_count_atmost_1 set_mset_mset)
  have r: "rank (ID (ys ! i)) = i" if "i < length ys" for i
  proof -
    from that have "ID (ys ! i) = ks ! i" by (simp add: ks_def)
    moreover from that have "i < length ks" by (simp add: ks_def)
    ultimately show ?thesis using first_index [OF dk] by (simp add: rank_def)
  qed
  have "map (\<lambda>q. rank (ID q)) ys = [0..<length ys]"
    by (rule nth_equalityI) (simp_all add: r)
  then have s: "sorted (map (\<lambda>q. rank (ID q)) ys)" by simp
  have "inj_on ID (set m)"
    using assms(1) by (simp add: distinct_map)
  moreover have "inj_on rank (set ks)"
  proof (rule inj_onI)
    fix a b assume "a \<in> set ks" "b \<in> set ks" "rank a = rank b"
    then obtain i j where "i < length ks" "a = ks ! i" "j < length ks" "b = ks ! j"
      by (metis in_set_conv_nth)
    with \<open>rank a = rank b\<close> first_index [OF dk] show "a = b" by (simp add: rank_def)
  qed
  moreover have "ID ` set m = set ks"
    using assms(2) by (metis ks_def list.set_map mset_eq_setD)
  ultimately have "inj_on (\<lambda>q. rank (ID q)) (set m)"
    by (metis comp_inj_on comp_def inj_on_cong)
  with assms(2) s have "sort_key (\<lambda>q. rank (ID q)) m = ys"
    by (intro sort_key_inj_key_eq) simp_all
  then show ?thesis unfolding range_order_def by blast
qed

lemma set_map_store_ID: "ID ` set (map_store p m) = insert (ID p) (ID ` set m)"
  by (induction m) auto

lemma distinct_map_store: "distinct (map ID m) \<Longrightarrow> distinct (map ID (map_store p m))"
proof (induction m)
  case Nil
  then show ?case by simp
next
  case (Cons q m)
  then show ?case
    using set_map_store_ID [of p m] by (auto simp: image_iff)
qed

lemma distinct_unvisited: "distinct (map ID m0) \<Longrightarrow> distinct (map ID (foldl (\<lambda>m p. map_store p m) m0 ps))"
  by (induction ps arbitrary: m0) (simp_all add: distinct_map_store)

lemma distinct_map_delete: "distinct (map ID m) \<Longrightarrow> distinct (map ID (map_delete k m))"
  by (simp add: map_delete_def distinct_map_filter)

text \<open>One pass of the loop of \<^verbatim>\<open>optimizeRoute\<close>.\<close>

lemma optimize_loop_unfold:
  "optimize_loop order matrix endTime visitDuration st =
     (if unvisited st = [] then
        Inr \<lparr>Visits = visits st,
             TotalDistanceKm = totalDistance st,
             TotalTravelTime = totalTravelTime st,
             CompletionTime = currentTime st,
             TimeBufferMinutes = Minutes_int (endTime - currentTime st),
             Feasible = True\<rparr>
      else
        (case findNearest (order (sequenceOrder st)) (currentLoc st) (unvisited st) matrix of
           (None, minDist) \<Rightarrow> Inl NilPointerPanic
         | (Some nearestPlace, minDist) \<Rightarrow>
             if endTime < currentTime st + GetTime matrix (currentLoc st) (Location nearestPlace) * Minute
                            + visitDuration * Minute
             then Inl TimeWindowExceeded
             else optimize_loop order matrix endTime visitDuration
                    (advance matrix visitDuration st nearestPlace minDist)))"
  by (subst optimize_loop.simps) (simp add: advance_def Let_def split: prod.splits option.splits)

lemma advance_shorter:
  assumes "findNearest rank (currentLoc st) (unvisited st) matrix = (Some np, d)"
  shows "length (unvisited (advance matrix vd st np d)) < length (unvisited st)"
proof -
  from assms have "np \<in> set (unvisited st)" by (rule findNearest_mem)
  then show ?thesis
    by (auto simp: advance_def Let_def map_delete_def intro: length_filter_less)
qed

lemma loop_induct:
  assumes step: "\<And>st. (\<And>np d. unvisited st \<noteq> [] \<Longrightarrow>
              findNearest (order (sequenceOrder st)) (currentLoc st) (unvisited st) matrix = (Some np, d)
              \<Longrightarrow> P (advance matrix vd st np d)) \<Longrightarrow> P st"
  shows "P st"
proof (induction st rule: measure_induct_rule [where f = "\<lambda>st. length (unvisited st)"])
  case (less st)
  show ?case
  proof (rule step)
    fix np d
    assume "findNearest (order (sequenceOrder st)) (currentLoc st) (unvisited st) matrix = (Some np, d)"
    then have "length (unvisited (advance matrix vd st np d)) < length (unvisited st)"
      by (rule advance_shorter)
    then show "P (advance matrix vd st np d)" by (rule less)
  qed
qed









lemmas route_eval =
  optimizeRoute_def optimize_loop_unfold findNearest_def range_order_def advance_def map_delete_def
  Minute_def MaxFloat64_def Minutes_int_def Let_def







subsection \<open>Determinism and the greedy order\<close>

lemma set_map_store: "set (map_store p m) \<subseteq> insert p (set m)"
  by (induction m) auto

lemma set_foldl_map_store: "set (foldl (\<lambda>m p. map_store p m) m0 ps) \<subseteq> set m0 \<union> set ps"
proof (induction ps arbitrary: m0)
  case Nil
  then show ?case by simp
next
  case (Cons p ps)
  from Cons.IH [of "map_store p m0"] set_map_store [of p m0] show ?case by auto
qed

lemma optimize_loop_order_independent:
  assumes ties: "\<forall>frm \<in> insert startLoc (Location ` S). inj_on (\<lambda>p. GetDistance matrix frm (Location p)) S"
    and "set (unvisited st) \<subseteq> S" and "currentLoc st \<in> insert startLoc (Location ` S)"
  shows "optimize_loop order1 matrix endTime vd st = optimize_loop order2 matrix endTime vd st"
  using assms(2,3)
proof (induction st rule: loop_induct [where order = order1 and matrix = matrix and vd = vd])
  case (1 st)
  have "inj_on (\<lambda>p. GetDistance matrix (currentLoc st) (Location p)) (set (unvisited st))"
    using ties "1.prems" by (meson inj_on_subset)
  then have "\<forall>p \<in> set (unvisited st). \<forall>q \<in> set (unvisited st).
      GetDistance matrix (currentLoc st) (Location p) = GetDistance matrix (currentLoc st) (Location q) \<longrightarrow> p = q"
    by (auto dest: inj_onD)
  then have fn: "findNearest (order1 (sequenceOrder st)) (currentLoc st) (unvisited st) matrix
        = findNearest (order2 (sequenceOrder st)) (currentLoc st) (unvisited st) matrix"
    by (rule findNearest_order_independent)
  show ?case
  proof (cases "unvisited st = []")
    case True
    then show ?thesis
      by (subst (1 2) optimize_loop_unfold) simp
  next
    case False
    obtain n d where r: "findNearest (order1 (sequenceOrder st)) (currentLoc st) (unvisited st) matrix = (n, d)"
      by (cases "findNearest (order1 (sequenceOrder st)) (currentLoc st) (unvisited st) matrix")
    show ?thesis
    proof (cases n)
      case None
      with False r fn show ?thesis
        by (subst (1 2) optimize_loop_unfold) simp
    next
      case (Some np)
      from r Some have mem: "np \<in> set (unvisited st)" by (auto dest: findNearest_mem)
      have a: "set (unvisited (advance matrix vd st np d)) \<subseteq> S"
        using "1.prems"(1) by (auto simp: advance_def Let_def map_delete_def)
      have b: "currentLoc (advance matrix vd st np d) \<in> insert startLoc (Location ` S)"
        using mem "1.prems"(1) by (auto simp: advance_def Let_def)
      from "1.IH" [OF False r [unfolded Some] a b]
      have "optimize_loop order1 matrix endTime vd (advance matrix vd st np d)
            = optimize_loop order2 matrix endTime vd (advance matrix vd st np d)" .
      with False r fn Some show ?thesis
        by (subst (1 2) optimize_loop_unfold) simp
    qed
  qed
qed

text \<open>
  C6, as amended. When no two places are at the same distance from the start or from a
  place, the route does not depend on the order in which Go iterates over the map: two runs
  on the same request and matrix return the same result, visit order and times. On a tie
  \<^verbatim>\<open>findNearest\<close> keeps the place the iteration met first, so the order of the iteration
  decides, and the lowest id has no part in it.
\<close>

theorem deterministic_without_ties:
  "routingClient startLoc places mode = Inr matrix
   \<and> (\<forall>frm \<in> insert startLoc (Location ` set places).
         inj_on (\<lambda>p. GetDistance matrix frm (Location p)) (set places)) \<longrightarrow>
   optimizeRoute order1 routingClient startLoc places startTime endTime visitDuration mode
     = optimizeRoute order2 routingClient startLoc places startTime endTime visitDuration mode"
proof
  assume a: "routingClient startLoc places mode = Inr matrix
   \<and> (\<forall>frm \<in> insert startLoc (Location ` set places).
         inj_on (\<lambda>p. GetDistance matrix frm (Location p)) (set places))"
  let ?st = "\<lparr>currentLoc = startLoc, currentTime = startTime,
              unvisited = foldl (\<lambda>m p. map_store p m) [] places, visits = [],
              totalDistance = Fin 0, totalTravelTime = 0, sequenceOrder = 1\<rparr>"
  have "set (unvisited ?st) \<subseteq> set places"
    using set_foldl_map_store [of "[]" places] by simp
  moreover have "currentLoc ?st \<in> insert startLoc (Location ` set places)" by simp
  ultimately have "optimize_loop order1 matrix endTime visitDuration ?st
                   = optimize_loop order2 matrix endTime visitDuration ?st"
    using a by (intro optimize_loop_order_independent [where S = "set places" and startLoc = startLoc]) blast+
  with a show "optimizeRoute order1 routingClient startLoc places startTime endTime visitDuration mode
     = optimizeRoute order2 routingClient startLoc places startTime endTime visitDuration mode"
    by (simp add: optimizeRoute_def)
qed

theorem deterministic_without_ties_witness:
  "inj_on (\<lambda>p. GetDistance half_hour_matrix ''start'' (Location p)) (set two_places)
   \<and> inj_on (\<lambda>p. GetDistance half_hour_matrix ''L1'' (Location p)) (set two_places)
   \<and> inj_on (\<lambda>p. GetDistance half_hour_matrix ''L2'' (Location p)) (set two_places)
   \<and> optimizeRoute a_first (\<lambda>s ps m. Inr half_hour_matrix) ''start'' two_places
        (600 * Minute) (840 * Minute) 60 ''driving''
     = optimizeRoute b_first (\<lambda>s ps m. Inr half_hour_matrix) ''start'' two_places
        (600 * Minute) (840 * Minute) 60 ''driving''"
proof -
  have i: "\<forall>frm \<in> insert ''start'' (Location ` set two_places).
       inj_on (\<lambda>p. GetDistance half_hour_matrix frm (Location p)) (set two_places)"
    by (simp add: two_places_def half_hour_matrix_def)
  have c: "(\<lambda>s ps m. Inr half_hour_matrix) ''start'' two_places ''driving'' = Inr half_hour_matrix"
    by simp
  have "optimizeRoute a_first (\<lambda>s ps m. Inr half_hour_matrix) ''start'' two_places
        (600 * Minute) (840 * Minute) 60 ''driving''
     = optimizeRoute b_first (\<lambda>s ps m. Inr half_hour_matrix) ''start'' two_places
        (600 * Minute) (840 * Minute) 60 ''driving''"
    by (rule deterministic_without_ties [where routingClient = "\<lambda>s ps m. Inr half_hour_matrix"
          and startLoc = "''start''" and places = two_places and mode = "''driving''"
          and matrix = half_hour_matrix, THEN mp, OF conjI [OF c i]])
  moreover have "inj_on (\<lambda>p. GetDistance half_hour_matrix frm (Location p)) (set two_places)" for frm
    by (simp add: two_places_def half_hour_matrix_def)
  ultimately show ?thesis by blast
qed

text \<open>
  C6 as stated fails. The places \<open>a\<close> and \<open>b\<close> are at the same distance from the start. On
  the same request and the same matrix, the run whose map iteration meets \<open>a\<close> first visits
  \<open>a\<close> then \<open>b\<close>, and the run whose iteration meets \<open>b\<close> first visits \<open>b\<close> then \<open>a\<close>:
  the two runs differ, and in the second the tie goes to \<open>b\<close>, not to the lowest id.
\<close>

theorem tie_counterexample:
  "GetDistance tied_matrix ''start'' ''La'' = GetDistance tied_matrix ''start'' ''Lb''
   \<and> \<not> isl (optimizeRoute a_first (\<lambda>s ps m. Inr tied_matrix) ''start'' tied_places 0 (600 * Minute) 30 ''driving'')
   \<and> \<not> isl (optimizeRoute b_first (\<lambda>s ps m. Inr tied_matrix) ''start'' tied_places 0 (600 * Minute) 30 ''driving'')
   \<and> visit_order (projr (optimizeRoute a_first (\<lambda>s ps m. Inr tied_matrix) ''start'' tied_places
        0 (600 * Minute) 30 ''driving'')) = [''a'', ''b'']
   \<and> visit_order (projr (optimizeRoute b_first (\<lambda>s ps m. Inr tied_matrix) ''start'' tied_places
        0 (600 * Minute) 30 ''driving'')) = [''b'', ''a'']"
  by (simp add: route_eval tied_places_def tied_matrix_def a_first_def b_first_def visit_order_def)

lemma straight_line_values:
  "straight_line (0, 0) (0, 1) = Fin 1" "straight_line (0, 0) (0, 5) = Fin 5"
  "straight_line (0, 0) (0, 2) = Fin 2" "straight_line (0, 1) (0, 5) = Fin 4"
  "straight_line (0, 1) (0, 2) = Fin 1" "straight_line (0, 2) (0, 5) = Fin 3"
  by (simp_all add: straight_line_def)

lemma ABC_first:
  "findNearest rank (0, 0) ABC \<lparr>GetDistance = straight_line, GetTime = travel\<rparr>
     = (Some \<lparr>ID = ''A'', Location = (0, 1)\<rparr>, Fin 1)"
proof -
  let ?M = "\<lparr>GetDistance = straight_line, GetTime = travel\<rparr>"
  let ?A = "\<lparr>ID = ''A'', Location = (0::real, 1::real)\<rparr>"
  have "findNearest rank (0, 0) ABC ?M = (Some ?A, GetDistance ?M (0, 0) (Location ?A))"
    by (rule findNearest_strict_minimum) (auto simp: ABC_def straight_line_values MaxFloat64_def)
  then show ?thesis by (simp add: straight_line_values)
qed

lemma ABC_second:
  "findNearest rank (0, 1) [\<lparr>ID = ''B'', Location = (0, 5)\<rparr>, \<lparr>ID = ''C'', Location = (0, 2)\<rparr>]
     \<lparr>GetDistance = straight_line, GetTime = travel\<rparr>
     = (Some \<lparr>ID = ''C'', Location = (0, 2)\<rparr>, Fin 1)"
proof -
  let ?M = "\<lparr>GetDistance = straight_line, GetTime = travel\<rparr>"
  let ?C = "\<lparr>ID = ''C'', Location = (0::real, 2::real)\<rparr>"
  have "findNearest rank (0, 1) [\<lparr>ID = ''B'', Location = (0, 5)\<rparr>, ?C] ?M
        = (Some ?C, GetDistance ?M (0, 1) (Location ?C))"
    by (rule findNearest_strict_minimum) (auto simp: straight_line_values MaxFloat64_def)
  then show ?thesis by (simp add: straight_line_values)
qed

lemma ABC_third:
  "findNearest rank (0, 2) [\<lparr>ID = ''B'', Location = (0, 5)\<rparr>]
     \<lparr>GetDistance = straight_line, GetTime = travel\<rparr>
     = (Some \<lparr>ID = ''B'', Location = (0, 5)\<rparr>, Fin 3)"
  by (simp add: findNearest_def range_order_def straight_line_values MaxFloat64_def)

text \<open>
  C8. The place selected at each step is one of the remaining places, and none of them is
  strictly nearer to the current location. With the start at (0,0), the places A(0,1),
  B(0,5), C(0,2) given in this order and the straight-line distance as the matrix, every
  route the optimizer returns visits A, then C, then B, whatever the order of the map
  iteration, the travel times and the window; and the only failure is a window too short.
\<close>

theorem greedy_order_ACB:
  "(findNearest rank frm remaining matrix = (Some p, d) \<longrightarrow>
      p \<in> set remaining \<and> d = GetDistance matrix frm (Location p)
      \<and> (\<forall>q \<in> set remaining. \<not> flt (GetDistance matrix frm (Location q)) d))
   \<and> (optimizeRoute order (\<lambda>s ps m. Inr \<lparr>GetDistance = straight_line, GetTime = travel\<rparr>) (0, 0) ABC
      startTime endTime visitDuration mode = Inr r \<longrightarrow> visit_order r = [''A'', ''C'', ''B''])
   \<and> (optimizeRoute order (\<lambda>s ps m. Inr \<lparr>GetDistance = straight_line, GetTime = travel\<rparr>) (0, 0) ABC
      startTime endTime visitDuration mode = Inl e \<longrightarrow> e = TimeWindowExceeded)"
proof -
  have m: "foldl (\<lambda>m p. map_store p m) [] ABC = ABC"
    by (simp add: ABC_def)
  have A: "findNearest (order 1) (0, 0) ABC \<lparr>GetDistance = straight_line, GetTime = travel\<rparr>
     = (Some \<lparr>ID = ''A'', Location = (0, 1)\<rparr>, Fin 1)"
    by (rule ABC_first)
  have d: "map_delete ''A'' ABC = [\<lparr>ID = ''B'', Location = (0, 5)\<rparr>, \<lparr>ID = ''C'', Location = (0, 2)\<rparr>]"
    "map_delete ''C'' [\<lparr>ID = ''B'', Location = (0::real, 5::real)\<rparr>, \<lparr>ID = ''C'', Location = (0, 2)\<rparr>]
       = [\<lparr>ID = ''B'', Location = (0, 5)\<rparr>]"
    "map_delete ''B'' [\<lparr>ID = ''B'', Location = (0::real, 5::real)\<rparr>] = []"
    "ABC \<noteq> []"
    by (simp_all add: ABC_def map_delete_def)
  have g: "findNearest rank frm remaining matrix = (Some p, d) \<longrightarrow>
      p \<in> set remaining \<and> d = GetDistance matrix frm (Location p)
      \<and> (\<forall>q \<in> set remaining. \<not> flt (GetDistance matrix frm (Location q)) d)"
    by (auto dest: findNearest_result)
  have i: "(optimizeRoute order (\<lambda>s ps m. Inr \<lparr>GetDistance = straight_line, GetTime = travel\<rparr>) (0, 0) ABC
      startTime endTime visitDuration mode = Inr r \<longrightarrow> visit_order r = [''A'', ''C'', ''B''])
   \<and> (optimizeRoute order (\<lambda>s ps m. Inr \<lparr>GetDistance = straight_line, GetTime = travel\<rparr>) (0, 0) ABC
      startTime endTime visitDuration mode = Inl e \<longrightarrow> e = TimeWindowExceeded)"
    unfolding optimizeRoute_def
    by (auto simp add: m optimize_loop_unfold A d advance_def Let_def ABC_second ABC_third
        visit_order_def split: if_splits)
  from g i show ?thesis by blast
qed

theorem greedy_order_ACB_witness:
  "\<not> isl (optimizeRoute (\<lambda>n k. 0) (\<lambda>s ps m. Inr \<lparr>GetDistance = straight_line, GetTime = (\<lambda>a b. 10)\<rparr>)
             (0, 0) ABC 0 (600 * Minute) 30 ''walking'')
   \<and> visit_order (projr (optimizeRoute (\<lambda>n k. 0)
        (\<lambda>s ps m. Inr \<lparr>GetDistance = straight_line, GetTime = (\<lambda>a b. 10)\<rparr>)
        (0, 0) ABC 0 (600 * Minute) 30 ''walking'')) = [''A'', ''C'', ''B'']"
proof -
  let ?X = "optimizeRoute (\<lambda>n k. 0) (\<lambda>s ps m. Inr \<lparr>GetDistance = straight_line, GetTime = (\<lambda>a b. 10)\<rparr>)
             (0, 0) ABC 0 (600 * Minute) 30 ''walking''"
  have ok: "\<not> isl ?X"
    by (simp add: route_eval ABC_def straight_line_def)
  then have X: "?X = Inr (projr ?X)" by (cases ?X) simp_all
  have "visit_order (projr ?X) = [''A'', ''C'', ''B'']"
    by (rule greedy_order_ACB [where order = "\<lambda>n k. 0" and travel = "\<lambda>a b. 10" and startTime = 0
          and endTime = "600 * Minute" and visitDuration = 30 and mode = "''walking''" and r = "projr ?X",
          THEN conjunct2, THEN conjunct1, THEN mp, OF X])
  with ok show ?thesis by (rule conjI)
qed

end
